theory Spec2Isabelle
  imports Main "HOL-Library.Word" "HOL-Library.AList" "HOL-Library.Multiset"
begin

unbundle bit_operations_syntax

section \<open>JavaScript values used by the sources\<close>

text \<open>
  A JavaScript string is a sequence of UTF-16 code units and a \<open>Uint8Array\<close> a sequence of
  bytes. String literals of the sources are written \<open>str ''...''\<close>.
  JavaScript numbers that the sources use as counts, indices, page numbers and timestamps
  are modelled by \<open>int\<close> (exact below \<open>2^53\<close> in magnitude).
\<close>

type_synonym jsstring = "16 word list"
type_synonym Uint8Array = "8 word list"

definition str :: "string \<Rightarrow> jsstring" where
  "str s = map (\<lambda>c. of_nat (of_char c)) s"

text \<open>White space and line terminators of ECMAScript (\<open>String.prototype.trim\<close>,
  the prefix skipped by \<open>parseInt\<close>).\<close>

definition isWhiteSpace :: "16 word \<Rightarrow> bool" where
  "isWhiteSpace c \<longleftrightarrow>
     c \<in> set [0x09, 0x0A, 0x0B, 0x0C, 0x0D, 0x20, 0xA0, 0x1680, 0x2028, 0x2029, 0x202F,
              0x205F, 0x3000, 0xFEFF]
     \<or> (0x2000 \<le> c \<and> c \<le> 0x200A)"

definition trim :: "jsstring \<Rightarrow> jsstring" where
  "trim s = rev (dropWhile isWhiteSpace (rev (dropWhile isWhiteSpace s)))"

definition startsWith :: "jsstring \<Rightarrow> jsstring \<Rightarrow> bool" where
  "startsWith s p \<longleftrightarrow> take (length p) s = p"

text \<open>\<open>String.prototype.toLowerCase\<close> on the ASCII letters; the Unicode case mapping of the
  other code units is not modelled (the only call site lowers a string that has passed
  the hexadecimal test).\<close>

definition toLowerUnit :: "16 word \<Rightarrow> 16 word" where
  "toLowerUnit c = (if 0x41 \<le> c \<and> c \<le> 0x5A then c + 0x20 else c)"

definition toLowerCase :: "jsstring \<Rightarrow> jsstring" where
  "toLowerCase s = map toLowerUnit s"

text \<open>Everything the sources throw, as values.\<close>

datatype jsversion = VNum int | VOther

datatype error =
    InvalidNsecFormat
  | InvalidNpubFormat
  | InvalidKeyFormat
  | UnsupportedIndexVersion jsversion
  | UnsupportedManifestVersion jsversion
  | TypeError
  | InvalidCharacterError
  | LibraryError jsstring

section \<open>Key management (lib/keys.ts)\<close>

text \<open>\<open>nip19.decode\<close> and \<open>getPublicKey\<close> belong to the nostr-tools library; they are
  parameters \<open>decode\<close> and \<open>getPublicKey\<close> of the functions below. A decoded value carries
  its type tag and its data.\<close>

datatype decoded = Nsec Uint8Array | Npub jsstring | OtherEntity

type_synonym nip19_decode = "jsstring \<Rightarrow> error + decoded"

definition nsecToSecretKey :: "nip19_decode \<Rightarrow> jsstring \<Rightarrow> error + Uint8Array" where
  "nsecToSecretKey decode nsec =
     (case decode nsec of
        Inl e \<Rightarrow> Inl e
      | Inr (Nsec d) \<Rightarrow> Inr d
      | Inr _ \<Rightarrow> Inl InvalidNsecFormat)"

definition npubToPublicKey :: "nip19_decode \<Rightarrow> jsstring \<Rightarrow> error + jsstring" where
  "npubToPublicKey decode npub =
     (case decode npub of
        Inl e \<Rightarrow> Inl e
      | Inr (Npub d) \<Rightarrow> Inr d
      | Inr _ \<Rightarrow> Inl InvalidNpubFormat)"

definition isValidNpub :: "nip19_decode \<Rightarrow> jsstring \<Rightarrow> bool" where
  "isValidNpub decode input =
     (if \<not> startsWith input (str ''npub1'') then False
      else (case decode input of
              Inl e \<Rightarrow> False
            | Inr (Npub d) \<Rightarrow> True
            | Inr _ \<Rightarrow> False))"

definition isValidNsec :: "nip19_decode \<Rightarrow> jsstring \<Rightarrow> bool" where
  "isValidNsec decode input =
     (if \<not> startsWith input (str ''nsec1'') then False
      else (case decode input of
              Inl e \<Rightarrow> False
            | Inr (Nsec d) \<Rightarrow> True
            | Inr _ \<Rightarrow> False))"

text \<open>The regular expression \<open>/^[0-9a-fA-F]{64}$/\<close>: the character class, and a matcher
  that consumes exactly \<open>n\<close> members of the class and then requires the end of the input.\<close>

definition hexClass :: "16 word \<Rightarrow> bool" where
  "hexClass c \<longleftrightarrow>
     (0x30 \<le> c \<and> c \<le> 0x39) \<or> (0x61 \<le> c \<and> c \<le> 0x66) \<or> (0x41 \<le> c \<and> c \<le> 0x46)"

fun matchHexTimes :: "nat \<Rightarrow> jsstring \<Rightarrow> bool" where
  "matchHexTimes 0 s = (s = [])"
| "matchHexTimes (Suc n) [] = False"
| "matchHexTimes (Suc n) (c # s) = (hexClass c \<and> matchHexTimes n s)"

definition isValidHexPubkey :: "jsstring \<Rightarrow> bool" where
  "isValidHexPubkey input = matchHexTimes 64 input"

record keys =
  pubkey :: jsstring
  secretKey :: "Uint8Array option"

definition normalizeToPublicKey ::
  "nip19_decode \<Rightarrow> (Uint8Array \<Rightarrow> error + jsstring) \<Rightarrow> jsstring \<Rightarrow> error + keys" where
  "normalizeToPublicKey decode getPublicKey input =
     (let trimmed = trim input in
      if isValidNpub decode trimmed then
        (case npubToPublicKey decode trimmed of
           Inl e \<Rightarrow> Inl e
         | Inr pk \<Rightarrow> Inr \<lparr>pubkey = pk, secretKey = None\<rparr>)
      else if isValidNsec decode trimmed then
        (case nsecToSecretKey decode trimmed of
           Inl e \<Rightarrow> Inl e
         | Inr sk \<Rightarrow>
             (case getPublicKey sk of
                Inl e \<Rightarrow> Inl e
              | Inr pk \<Rightarrow> Inr \<lparr>pubkey = pk, secretKey = Some sk\<rparr>))
      else if isValidHexPubkey trimmed then
        Inr \<lparr>pubkey = toLowerCase trimmed, secretKey = None\<rparr>
      else Inl InvalidKeyFormat)"

section \<open>Decryption (lib/crypto.ts)\<close>

text \<open>
  \<open>btoa\<close> and \<open>atob\<close> are functions of the browser. \<open>btoa\<close> is the base64 encoding of RFC 4648
  and throws on a code unit above \<open>0xFF\<close>; \<open>atob\<close> is the forgiving base64 decoding of the
  HTML standard: ASCII white space is removed, one or two \<open>=\<close> at the end are removed when
  the length is a multiple of 4, a length of 1 modulo 4 or a character outside the alphabet
  is an error, and the bits left over at the end are dropped.
\<close>

definition b64char :: "nat \<Rightarrow> 16 word" where
  "b64char n =
     (if n < 26 then of_nat (65 + n)
      else if n < 52 then of_nat (97 + (n - 26))
      else if n < 62 then of_nat (48 + (n - 52))
      else if n = 62 then 0x2B
      else 0x2F)"

definition b64value :: "16 word \<Rightarrow> nat option" where
  "b64value c =
     (let u = unat c in
      if 65 \<le> u \<and> u \<le> 90 then Some (u - 65)
      else if 97 \<le> u \<and> u \<le> 122 then Some (u - 97 + 26)
      else if 48 \<le> u \<and> u \<le> 57 then Some (u - 48 + 52)
      else if u = 43 then Some 62
      else if u = 47 then Some 63
      else None)"

fun b64encode :: "nat list \<Rightarrow> jsstring" where
  "b64encode [] = []"
| "b64encode [a] = [b64char (a div 4), b64char ((a mod 4) * 16), 0x3D, 0x3D]"
| "b64encode [a, b] =
     [b64char (a div 4), b64char ((a mod 4) * 16 + b div 16), b64char ((b mod 16) * 4), 0x3D]"
| "b64encode (a # b # c # bs) =
     [b64char (a div 4), b64char ((a mod 4) * 16 + b div 16),
      b64char ((b mod 16) * 4 + c div 64), b64char (c mod 64)] @ b64encode bs"

fun b64decode :: "nat list \<Rightarrow> nat list" where
  "b64decode (a # b # c # d # vs) =
     [a * 4 + b div 16, (b mod 16) * 16 + c div 4, (c mod 4) * 64 + d] @ b64decode vs"
| "b64decode [a, b, c] = [a * 4 + b div 16, (b mod 16) * 16 + c div 4]"
| "b64decode [a, b] = [a * 4 + b div 16]"
| "b64decode vs = []"

definition btoa :: "jsstring \<Rightarrow> error + jsstring" where
  "btoa s =
     (if \<exists>c \<in> set s. 0xFF < c then Inl InvalidCharacterError
      else Inr (b64encode (map unat s)))"

definition isAsciiWhitespace :: "16 word \<Rightarrow> bool" where
  "isAsciiWhitespace c \<longleftrightarrow> c \<in> set [0x09, 0x0A, 0x0C, 0x0D, 0x20]"

definition stripPadding :: "jsstring \<Rightarrow> jsstring" where
  "stripPadding d =
     (if d \<noteq> [] \<and> last d = 0x3D
      then (if butlast d \<noteq> [] \<and> last (butlast d) = 0x3D then butlast (butlast d)
            else butlast d)
      else d)"

definition atob :: "jsstring \<Rightarrow> error + jsstring" where
  "atob s =
     (let d0 = filter (\<lambda>c. \<not> isAsciiWhitespace c) s;
          d = (if length d0 mod 4 = 0 then stripPadding d0 else d0)
      in if length d mod 4 = 1 then Inl InvalidCharacterError
         else (case those (map b64value d) of
                 None \<Rightarrow> Inl InvalidCharacterError
               | Some vs \<Rightarrow> Inr (map of_nat (b64decode vs))))"

text \<open>Storing \<open>charCodeAt(i)\<close> into a \<open>Uint8Array\<close> keeps the low eight bits.\<close>

definition base64ToUint8Array :: "jsstring \<Rightarrow> error + Uint8Array" where
  "base64ToUint8Array base64 =
     (case atob base64 of
        Inl e \<Rightarrow> Inl e
      | Inr binaryString \<Rightarrow> Inr (map ucast binaryString))"

definition uint8ArrayToBase64 :: "Uint8Array \<Rightarrow> error + jsstring" where
  "uint8ArrayToBase64 bytes = btoa (map ucast bytes)"

text \<open>\<open>new TextEncoder().encode(s)\<close>: the UTF-8 encoding of the code points of \<open>s\<close>; a
  surrogate without its partner is encoded as \<open>U+FFFD\<close>.\<close>

definition codePoint :: "16 word \<Rightarrow> 16 word \<Rightarrow> 32 word" where
  "codePoint hi lo = 0x10000 + push_bit 10 (ucast (hi - 0xD800)) + ucast (lo - 0xDC00)"

fun utf8encode :: "jsstring \<Rightarrow> Uint8Array" where
  "utf8encode [] = []"
| "utf8encode (c # cs) =
     (if c < 0x80 then ucast c # utf8encode cs
      else if c < 0x800 then
        [0xC0 OR ucast (drop_bit 6 c), 0x80 OR ucast (c AND 0x3F)] @ utf8encode cs
      else if 0xD800 \<le> c \<and> c \<le> 0xDBFF then
        (case cs of
           [] \<Rightarrow> [0xEF, 0xBF, 0xBD]
         | d # ds \<Rightarrow>
             if 0xDC00 \<le> d \<and> d \<le> 0xDFFF then
               (let p = codePoint c d in
                [0xF0 OR ucast (drop_bit 18 p), 0x80 OR ucast (drop_bit 12 p AND 0x3F),
                 0x80 OR ucast (drop_bit 6 p AND 0x3F), 0x80 OR ucast (p AND 0x3F)])
               @ utf8encode ds
             else [0xEF, 0xBF, 0xBD] @ utf8encode cs)
      else if 0xDC00 \<le> c \<and> c \<le> 0xDFFF then [0xEF, 0xBF, 0xBD] @ utf8encode cs
      else [0xE0 OR ucast (drop_bit 12 c), 0x80 OR ucast (drop_bit 6 c AND 0x3F),
            0x80 OR ucast (c AND 0x3F)] @ utf8encode cs)"

text \<open>\<open>nip44.v2\<close> of nostr-tools: the derivation of the conversation key and the decryption,
  either of which may throw.\<close>

record 'k nip44 =
  getConversationKey :: "Uint8Array \<Rightarrow> jsstring \<Rightarrow> error + 'k"
  decrypt :: "jsstring \<Rightarrow> 'k \<Rightarrow> error + jsstring"

definition decryptChunk :: "'k nip44 \<Rightarrow> jsstring \<Rightarrow> Uint8Array \<Rightarrow> jsstring \<Rightarrow> error + Uint8Array" where
  "decryptChunk lib ciphertext sk pk =
     (case getConversationKey lib sk pk of
        Inl e \<Rightarrow> Inl e
      | Inr conversationKey \<Rightarrow>
          (case decrypt lib ciphertext conversationKey of
             Inl e \<Rightarrow> Inl e
           | Inr decrypted \<Rightarrow> Inr (utf8encode decrypted)))"

definition decryptChunkBinary ::
  "'k nip44 \<Rightarrow> jsstring \<Rightarrow> Uint8Array \<Rightarrow> jsstring \<Rightarrow> error + Uint8Array" where
  "decryptChunkBinary lib ciphertext sk pk =
     (case getConversationKey lib sk pk of
        Inl e \<Rightarrow> Inl e
      | Inr conversationKey \<Rightarrow>
          (case decrypt lib ciphertext conversationKey of
             Inl e \<Rightarrow> Inl e
           | Inr decrypted \<Rightarrow> base64ToUint8Array decrypted))"

text \<open>The six-bit groups and the number of padding characters of the encoding of a list
  of bytes, used to reason about \<open>b64encode\<close>.\<close>

fun sextets :: "nat list \<Rightarrow> nat list" where
  "sextets [] = []"
| "sextets [a] = [a div 4, (a mod 4) * 16]"
| "sextets [a, b] = [a div 4, (a mod 4) * 16 + b div 16, (b mod 16) * 4]"
| "sextets (a # b # c # bs) =
     [a div 4, (a mod 4) * 16 + b div 16, (b mod 16) * 4 + c div 64, c mod 64] @ sextets bs"

fun padding :: "nat list \<Rightarrow> nat" where
  "padding [] = 0"
| "padding [a] = 2"
| "padding [a, b] = 1"
| "padding (a # b # c # bs) = padding bs"

section \<open>Index pages (lib/nostr.ts)\<close>

text \<open>\<open>D_TAGS.CURRENT_INDEX\<close> and \<open>D_TAGS.archiveTag\<close> come from \<open>./types\<close>; they are the
  parameters \<open>CURRENT_INDEX\<close> and \<open>archiveTag\<close>.\<close>

definition getDTagForPage :: "jsstring \<Rightarrow> (int \<Rightarrow> jsstring) \<Rightarrow> int \<Rightarrow> int \<Rightarrow> jsstring" where
  "getDTagForPage CURRENT_INDEX archiveTag page totalArchives =
     (if page = 1 then CURRENT_INDEX
      else (let archiveNumber = totalArchives + 2 - page in archiveTag archiveNumber))"

section \<open>Relay events and chunk indices (lib/nostr.ts)\<close>

text \<open>A relay event as the sources read it (\<open>id\<close>, \<open>created_at\<close>, \<open>tags\<close>, \<open>content\<close>), and
  the query filter handed to the pool. \<open>tag_d\<close> and \<open>tag_x\<close> are the filter keys \<open>'#d'\<close> and
  \<open>'#x'\<close>.\<close>

record event =
  ev_id :: jsstring
  created_at :: int
  tags :: "jsstring list list"
  ev_content :: jsstring

record filter =
  kinds :: "int list"
  authors :: "jsstring list"
  tag_d :: "jsstring list option"
  tag_x :: "jsstring list option"
  ids :: "jsstring list option"
  limit :: "int option"

text \<open>\<open>parseInt(s, 10)\<close>: leading white space is skipped, one sign is read, then the longest
  run of decimal digits; no digit gives \<open>NaN\<close>, here \<open>None\<close>.\<close>

definition isDigit :: "16 word \<Rightarrow> bool" where
  "isDigit c \<longleftrightarrow> 0x30 \<le> c \<and> c \<le> 0x39"

definition digitsValue :: "jsstring \<Rightarrow> int" where
  "digitsValue ds = foldl (\<lambda>a c. 10 * a + (uint c - 48)) 0 ds"

definition parseInt :: "jsstring \<Rightarrow> int option" where
  "parseInt s =
     (let t = dropWhile isWhiteSpace s;
          sign = (case t of c # r \<Rightarrow> if c = 0x2D then - 1 else 1 | [] \<Rightarrow> 1);
          u = (case t of c # r \<Rightarrow> if c = 0x2D \<or> c = 0x2B then r else t | [] \<Rightarrow> t);
          ds = takeWhile isDigit u
      in if ds = [] then None else Some (sign * digitsValue ds))"

text \<open>\<open>s.split(sep)\<close> for a separator of one code unit.\<close>

fun split :: "16 word \<Rightarrow> jsstring \<Rightarrow> jsstring list" where
  "split sep [] = [[]]"
| "split sep (c # s) =
     (if c = sep then [] # split sep s
      else (case split sep s of
              p # ps \<Rightarrow> (c # p) # ps
            | [] \<Rightarrow> [[c]]))"

text \<open>\<open>tags.find(t => t[0] === name)\<close> and the element \<open>[1]\<close> of a tag, absent (\<open>undefined\<close>)
  when the tag is shorter.\<close>

definition findTag :: "jsstring \<Rightarrow> jsstring list list \<Rightarrow> jsstring list option" where
  "findTag name ts = find (\<lambda>t. case t of [] \<Rightarrow> False | h # r \<Rightarrow> h = name) ts"

definition tagValue :: "jsstring list \<Rightarrow> jsstring option" where
  "tagValue t = (case t of h # v # r \<Rightarrow> Some v | _ \<Rightarrow> None)"

definition chunkTagIndex :: "jsstring list list \<Rightarrow> int option" where
  "chunkTagIndex ts =
     (case findTag (str ''chunk'') ts of
        None \<Rightarrow> None
      | Some chunkTag \<Rightarrow>
          (case tagValue chunkTag of
             None \<Rightarrow> None
           | Some v \<Rightarrow> if v = [] then None else parseInt v))"

definition dTagIndex :: "jsstring list list \<Rightarrow> int option" where
  "dTagIndex ts =
     (case findTag (str ''d'') ts of
        None \<Rightarrow> None
      | Some t \<Rightarrow>
          (case tagValue t of
             None \<Rightarrow> None
           | Some dTag \<Rightarrow>
               if dTag = [] then None
               else (let parts = split 0x3A dTag; indexStr = last parts in parseInt indexStr)))"

definition parseChunkIndexFromTags :: "jsstring list list \<Rightarrow> int option" where
  "parseChunkIndexFromTags ts =
     (case chunkTagIndex ts of
        Some index \<Rightarrow> Some index
      | None \<Rightarrow> dTagIndex ts)"

section \<open>Index and manifest records (lib/nostr.ts)\<close>

text \<open>
  \<open>JSON.parse(event.content) as FileIndex\<close>: what the code observes of the parsed value is
  whether parsing threw, whether the value is \<open>null\<close> (reading \<open>.version\<close> of it throws a
  \<open>TypeError\<close>), the value of its \<open>version\<close> property, and the fields of the asserted
  type. \<open>VNum n\<close> is the number \<open>n\<close>; \<open>VOther\<close> stands for every other value of the property
  (a missing property, a string, a number that is not an integer), none of which is
  \<open>=== 2\<close>. \<open>FileIndex\<close> and \<open>Manifest\<close> are declared in \<open>./types\<close>; the fields are those the
  code reads.
\<close>

datatype 'a parsed = JsonNull | JsonValue 'a

record versioned =
  version :: jsversion

text \<open>The fields of \<open>ChunkInfo\<close> are \<open>index\<close> and \<open>event_id\<close>; the first is called
  \<open>chunk_index\<close> here. A missing or empty \<open>event_id\<close>, and a \<open>null\<close> entry of an array of
  them, are skipped alike by the code that reads them.\<close>

record ChunkInfo =
  chunk_index :: int
  event_id :: "jsstring option"

record FileIndex = versioned +
  total_archives :: int

record Manifest = versioned +
  file_name :: jsstring
  total_chunks :: int
  manifest_relays :: "jsstring list"
  manifest_encryption :: jsstring
  chunk_infos :: "ChunkInfo list"

text \<open>
  The pool: \<open>querySync\<close> answers a query with the events it has collected from the relays
  and may change the pool's state \<open>'p\<close>. The state of the network carries the list of the
  queries issued so far. \<open>EVENT_KINDS\<close> and \<open>D_TAGS\<close> come from \<open>./types\<close>.
\<close>

type_synonym 'p net = "'p \<times> (jsstring list \<times> filter) list"

record 'p resolver =
  INDEX :: int
  MANIFEST :: int
  CURRENT_INDEX :: jsstring
  archiveTag :: "int \<Rightarrow> jsstring"
  querySync :: "'p \<Rightarrow> jsstring list \<Rightarrow> filter \<Rightarrow> event list \<times> 'p"
  parseIndex :: "jsstring \<Rightarrow> FileIndex parsed option"
  parseManifest :: "jsstring \<Rightarrow> Manifest parsed option"

definition query :: "'p resolver \<Rightarrow> jsstring list \<Rightarrow> filter \<Rightarrow> 'p net \<Rightarrow> event list \<times> 'p net" where
  "query rs rl f net =
     (case querySync rs (fst net) rl f of
        (events, p') \<Rightarrow> (events, (p', snd net @ [(rl, f)])))"

text \<open>\<open>events.reduce((a, b) => a.created_at > b.created_at ? a : b)\<close> on a list that is not
  empty, given as its first element and the rest.\<close>

definition mostRecent :: "event \<Rightarrow> event list \<Rightarrow> event" where
  "mostRecent e es = foldl (\<lambda>a b. if created_at a > created_at b then a else b) e es"

definition indexFilter :: "'p resolver \<Rightarrow> jsstring \<Rightarrow> jsstring \<Rightarrow> filter" where
  "indexFilter rs pk dTag =
     \<lparr>kinds = [INDEX rs], authors = [pk], tag_d = Some [dTag], tag_x = None, ids = None,
      limit = Some 1\<rparr>"

text \<open>The \<open>try\<close> around \<open>JSON.parse\<close> and the test of the version that follows it.\<close>

definition readIndex :: "'p resolver \<Rightarrow> event \<Rightarrow> error + FileIndex option" where
  "readIndex rs ev =
     (case parseIndex rs (ev_content ev) of
        None \<Rightarrow> Inr None
      | Some JsonNull \<Rightarrow> Inl TypeError
      | Some (JsonValue idx) \<Rightarrow>
          if version idx \<noteq> VNum 2 then Inl (UnsupportedIndexVersion (version idx))
          else Inr (Some idx))"

function fetchFileIndex ::
  "'p resolver \<Rightarrow> jsstring list \<Rightarrow> jsstring \<Rightarrow> int \<Rightarrow> 'p net \<Rightarrow> (error + FileIndex option) \<times> 'p net"
where
  "fetchFileIndex rs rl pk page net =
     (if page = 1 then
        (case query rs rl (indexFilter rs pk (CURRENT_INDEX rs)) net of
           (events, net1) \<Rightarrow>
             (case events of
                [] \<Rightarrow> (Inr None, net1)
              | e # es \<Rightarrow> (readIndex rs (mostRecent e es), net1)))
      else
        (case fetchFileIndex rs rl pk 1 net of
           (Inl err, net1) \<Rightarrow> (Inl err, net1)
         | (Inr None, net1) \<Rightarrow> (Inr None, net1)
         | (Inr (Some currentIndex), net1) \<Rightarrow>
             (let dTag = getDTagForPage (CURRENT_INDEX rs) (archiveTag rs) page
                           (total_archives currentIndex)
              in case query rs rl (indexFilter rs pk dTag) net1 of
                   (events, net2) \<Rightarrow>
                     (case events of
                        [] \<Rightarrow> (Inr None, net2)
                      | e # es \<Rightarrow> (readIndex rs (mostRecent e es), net2)))))"
  by pat_completeness auto
termination
  by (relation "measure (\<lambda>(rs, rl, pk, page, net). if page = 1 then 0 else 1)") auto

declare fetchFileIndex.simps [simp del]

definition manifestFilters :: "'p resolver \<Rightarrow> jsstring \<Rightarrow> jsstring \<Rightarrow> filter list" where
  "manifestFilters rs pk hash =
     [\<lparr>kinds = [MANIFEST rs], authors = [pk], tag_d = None, tag_x = Some [hash],
       ids = None, limit = Some 1\<rparr>,
      \<lparr>kinds = [MANIFEST rs], authors = [pk], tag_d = Some [hash], tag_x = None,
       ids = None, limit = Some 1\<rparr>]"

text \<open>The loop \<open>for (const filter of filters)\<close> with its \<open>break\<close>.\<close>

fun queryEach ::
  "'p resolver \<Rightarrow> jsstring list \<Rightarrow> filter list \<Rightarrow> event list \<Rightarrow> 'p net \<Rightarrow> event list \<times> 'p net"
where
  "queryEach rs rl [] events net = (events, net)"
| "queryEach rs rl (f # fs) events net =
     (case query rs rl f net of
        (events', net') \<Rightarrow>
          if length events' > 0 then (events', net') else queryEach rs rl fs events' net')"

definition readManifest :: "'p resolver \<Rightarrow> event \<Rightarrow> error + Manifest option" where
  "readManifest rs ev =
     (case parseManifest rs (ev_content ev) of
        None \<Rightarrow> Inr None
      | Some JsonNull \<Rightarrow> Inl TypeError
      | Some (JsonValue manifest) \<Rightarrow>
          if version manifest \<noteq> VNum 2
          then Inl (UnsupportedManifestVersion (version manifest))
          else Inr (Some manifest))"

definition fetchManifest ::
  "'p resolver \<Rightarrow> jsstring list \<Rightarrow> jsstring \<Rightarrow> jsstring \<Rightarrow> 'p net \<Rightarrow> (error + Manifest option) \<times> 'p net"
where
  "fetchManifest rs rl pk hash net =
     (case queryEach rs rl (manifestFilters rs pk hash) [] net of
        (events, net1) \<Rightarrow>
          (case events of
             [] \<Rightarrow> (Inr None, net1)
           | e # es \<Rightarrow> (readManifest rs (mostRecent e es), net1)))"

section \<open>The chunk cache and fetchChunks (lib/nostr.ts)\<close>

text \<open>
  A \<open>Map\<close> is an association list in insertion order: \<open>set\<close> is \<open>AList.update\<close> (the value
  is replaced in place, a new key is appended), \<open>has\<close> and \<open>get\<close> are \<open>map_of\<close>, \<open>size\<close> is
  the length and \<open>values()\<close> is \<open>map snd\<close>.
\<close>

record ChunkEvent =
  index :: int
  content :: jsstring
  encryption :: jsstring

type_synonym chunk_map = "(int \<times> ChunkEvent) list"

text \<open>The promise in \<open>inFlight\<close> is the number of the retrieval that it belongs to.\<close>

record ChunkCacheEntry =
  chunksByIndex :: chunk_map
  inFlight :: "nat option"

type_synonym chunk_cache = "jsstring \<Rightarrow> ChunkCacheEntry option"

definition sortedChunks :: "chunk_map \<Rightarrow> ChunkEvent list" where
  "sortedChunks m = sort_key index (map snd m)"

record call_args =
  relays :: "jsstring list"
  pubkey_arg :: jsstring
  fileHash :: jsstring
  totalChunks :: int
  onProgress :: bool
  chunkInfos :: "ChunkInfo list option"

definition cacheKey :: "call_args \<Rightarrow> jsstring" where
  "cacheKey a = pubkey_arg a @ [0x3A] @ fileHash a"

text \<open>
  One started retrieval: the closure of the asynchronous block \<open>fetchPromise\<close>, with the
  subscription it is waiting for. \<open>progress\<close> lists the calls of \<open>onProgress\<close>.
\<close>

datatype phase =
    IdsBatch nat
  | Fallback
  | Fulfilled "ChunkEvent list"
  | Rejected error

record retrieval =
  r_args :: call_args
  localChunks :: chunk_map
  seenEventIds :: "jsstring list"
  indexByEventId :: "(jsstring \<times> int) list"
  phase :: phase
  progress :: "(int \<times> int) list"

definition active :: "retrieval \<Rightarrow> bool" where
  "active r = (case phase r of IdsBatch i \<Rightarrow> True | Fallback \<Rightarrow> True | _ \<Rightarrow> False)"

definition buildIndexByEventId :: "ChunkInfo list option \<Rightarrow> (jsstring \<times> int) list" where
  "buildIndexByEventId given =
     (case given of
        None \<Rightarrow> []
      | Some infos \<Rightarrow>
          foldl (\<lambda>m info.
                   case event_id info of
                     None \<Rightarrow> m
                   | Some e \<Rightarrow> if e = [] then m else AList.update e (chunk_index info) m)
                [] infos)"

definition handleEvent :: "event \<Rightarrow> retrieval \<Rightarrow> chunk_cache \<Rightarrow> retrieval \<times> chunk_cache" where
  "handleEvent ev r cache =
     (if ev_id ev \<in> set (seenEventIds r) then (r, cache)
      else
        (let r1 = r\<lparr>seenEventIds := seenEventIds r @ [ev_id ev]\<rparr>;
             parsedIndex = parseChunkIndexFromTags (tags ev);
             idx = (case parsedIndex of
                      Some i \<Rightarrow> Some i
                    | None \<Rightarrow> map_of (indexByEventId r) (ev_id ev))
         in case idx of
              None \<Rightarrow> (r1, cache)
            | Some i \<Rightarrow>
                (let enc = (case findTag (str ''encryption'') (tags ev) of
                              None \<Rightarrow> str ''none''
                            | Some t \<Rightarrow>
                                (case tagValue t of
                                   None \<Rightarrow> str ''none''
                                 | Some v \<Rightarrow> if v = [] then str ''none'' else v))
                 in if map_of (localChunks r1) i \<noteq> None then (r1, cache)
                    else
                      (let chunk = \<lparr>index = i, content = ev_content ev, encryption = enc\<rparr>;
                           m = AList.update i chunk (localChunks r1);
                           cache' = (case cache (cacheKey (r_args r)) of
                                       None \<Rightarrow> cache
                                     | Some entry \<Rightarrow>
                                         cache(cacheKey (r_args r) \<mapsto>
                                           entry\<lparr>chunksByIndex :=
                                                    AList.update i chunk (chunksByIndex entry)\<rparr>));
                           r2 = r1\<lparr>localChunks := m,
                                   progress := (if onProgress (r_args r)
                                                then progress r1 @ [(int (length m), totalChunks (r_args r))]
                                                else progress r1)\<rparr>
                       in (r2, cache')))))"

section \<open>fetchChunks as a transition system\<close>

text \<open>
  \<open>fetchChunks\<close> is an asynchronous function over the shared \<open>chunkCache\<close>. JavaScript runs
  each stretch of code between two \<open>await\<close>s without interruption, so an execution is a
  sequence of steps: a call of \<open>fetchChunks\<close>, the delivery of an event to the open
  subscription of a retrieval, and the end of that subscription (every relay has sent
  end-of-stored-events or closed, or \<open>maxWait\<close> has passed). A step runs the code up to the
  next \<open>await\<close>, and then the continuations of the promises it has settled, in the order
  in which they were registered.

  \<open>EVENT_KINDS.CHUNK\<close> comes from \<open>./types\<close> and is the field \<open>CHUNK\<close> of the environment;
  \<open>subscribeThrows\<close> says, from the number of subscriptions opened so far, whether the
  pool's \<open>subscribeManyEose\<close> throws instead of opening the next one.
\<close>

record environment =
  CHUNK :: int
  subscribeThrows :: "nat \<Rightarrow> error option"

datatype call_status =
    Running
  | AwaitInFlight nat
  | AwaitOwn nat
  | Returned "ChunkEvent list"
  | Threw error

record fetch_call =
  c_args :: call_args
  status :: call_status

record system =
  chunkCache :: chunk_cache
  retrievals :: "retrieval list"
  calls :: "fetch_call list"
  subscriptions :: "(jsstring list \<times> filter) list"

definition init :: system where
  "init = \<lparr>chunkCache = Map.empty, retrievals = [], calls = [], subscriptions = []\<rparr>"

definition CHUNK_ID_BATCH_SIZE :: nat where
  "CHUNK_ID_BATCH_SIZE = 200"

definition idsFilter :: "environment \<Rightarrow> call_args \<Rightarrow> jsstring list \<Rightarrow> filter" where
  "idsFilter env a batch =
     \<lparr>kinds = [CHUNK env], authors = [pubkey_arg a], tag_d = None, tag_x = None,
      ids = Some batch, limit = None\<rparr>"

definition xFilter :: "environment \<Rightarrow> call_args \<Rightarrow> filter" where
  "xFilter env a =
     \<lparr>kinds = [CHUNK env], authors = [pubkey_arg a], tag_d = None, tag_x = Some [fileHash a],
      ids = None, limit = None\<rparr>"

definition setPhase :: "nat \<Rightarrow> phase \<Rightarrow> system \<Rightarrow> system" where
  "setPhase rid ph s =
     s\<lparr>retrievals := (retrievals s)[rid := (retrievals s ! rid)\<lparr>phase := ph\<rparr>]\<rparr>"

text \<open>\<open>fetchChunkEventsWithFilters\<close> with one filter: the subscription is opened and the
  retrieval waits in phase \<open>ph\<close>; when the pool throws, the promise of the retrieval is
  rejected.\<close>

definition openSubscription :: "environment \<Rightarrow> nat \<Rightarrow> filter \<Rightarrow> phase \<Rightarrow> system \<Rightarrow> system" where
  "openSubscription env rid f ph s =
     (case subscribeThrows env (length (subscriptions s)) of
        Some e \<Rightarrow> setPhase rid (Rejected e) s
      | None \<Rightarrow>
          (setPhase rid ph s)
            \<lparr>subscriptions := subscriptions s @ [(relays (r_args (retrievals s ! rid)), f)]\<rparr>)"

text \<open>The end of the asynchronous block: the chunks collected, sorted by index.\<close>

definition finish :: "nat \<Rightarrow> system \<Rightarrow> system" where
  "finish rid s = setPhase rid (Fulfilled (sortedChunks (localChunks (retrievals s ! rid)))) s"

text \<open>After the loop over the batches: the fallback query by \<open>#x\<close> when chunks are missing.\<close>

definition afterLoop :: "environment \<Rightarrow> nat \<Rightarrow> system \<Rightarrow> system" where
  "afterLoop env rid s =
     (let r = retrievals s ! rid in
      if int (length (localChunks r)) < totalChunks (r_args r)
      then openSubscription env rid (xFilter env (r_args r)) Fallback s
      else finish rid s)"

text \<open>The loop test at offset \<open>i\<close> and the body up to its \<open>await\<close>.\<close>

definition enterBatch :: "environment \<Rightarrow> nat \<Rightarrow> nat \<Rightarrow> system \<Rightarrow> system" where
  "enterBatch env rid i s =
     (let r = retrievals s ! rid; ids = map fst (indexByEventId r) in
      if i < length ids
      then openSubscription env rid
             (idsFilter env (r_args r) (take CHUNK_ID_BATCH_SIZE (drop i ids))) (IdsBatch i) s
      else afterLoop env rid s)"

text \<open>The block continues when the promise of its subscription is resolved.\<close>

definition advance :: "environment \<Rightarrow> nat \<Rightarrow> system \<Rightarrow> system" where
  "advance env rid s =
     (let r = retrievals s ! rid in
      case phase r of
        IdsBatch i \<Rightarrow>
          (if int (length (localChunks r)) \<ge> totalChunks (r_args r) then afterLoop env rid s
           else enterBatch env rid (i + CHUNK_ID_BATCH_SIZE) s)
      | Fallback \<Rightarrow> finish rid s
      | _ \<Rightarrow> s)"

text \<open>
  From \<open>const chunksByIndex = new Map(...)\<close> to \<open>await fetchPromise\<close>, for the call number
  \<open>k\<close>. The entry of a key is created once and never replaced, so the entry \<open>cached\<close> that
  the call read when it was made is the entry of the cache now. The new retrieval gets its
  phase from \<open>enterBatch\<close> or \<open>afterLoop\<close>.
\<close>

definition startFetch :: "environment \<Rightarrow> nat \<Rightarrow> system \<Rightarrow> system" where
  "startFetch env k s =
     (let a = c_args (calls s ! k);
          cached = chunkCache s (cacheKey a);
          m = (case cached of None \<Rightarrow> [] | Some e \<Rightarrow> chunksByIndex e);
          byId = buildIndexByEventId (chunkInfos a);
          rid = length (retrievals s);
          r = \<lparr>r_args = a, localChunks = m, seenEventIds = [], indexByEventId = byId,
               phase = IdsBatch 0,
               progress = (if m \<noteq> [] \<and> onProgress a then [(int (length m), totalChunks a)]
                           else [])\<rparr>;
          s1 = s\<lparr>retrievals := retrievals s @ [r]\<rparr>;
          s2 = (if byId \<noteq> [] then enterBatch env rid 0 s1 else afterLoop env rid s1);
          entry = (case cached of None \<Rightarrow> \<lparr>chunksByIndex = [], inFlight = None\<rparr> | Some e \<Rightarrow> e)
      in s2\<lparr>chunkCache := (chunkCache s2)(cacheKey a \<mapsto> entry\<lparr>inFlight := Some rid\<rparr>),
            calls := (calls s2)[k := (calls s2 ! k)\<lparr>status := AwaitOwn rid\<rparr>]\<rparr>)"

definition setStatus :: "nat \<Rightarrow> call_status \<Rightarrow> system \<Rightarrow> system" where
  "setStatus k st s = s\<lparr>calls := (calls s)[k := (calls s ! k)\<lparr>status := st\<rparr>]\<rparr>"

text \<open>The \<open>finally\<close> block.\<close>

definition clearInFlight :: "jsstring \<Rightarrow> system \<Rightarrow> system" where
  "clearInFlight key s =
     (case chunkCache s key of
        None \<Rightarrow> s
      | Some current \<Rightarrow> s\<lparr>chunkCache := (chunkCache s)(key \<mapsto> current\<lparr>inFlight := None\<rparr>)\<rparr>)"

text \<open>The continuation of call \<open>k\<close> once the promise it awaits is settled; nothing happens
  while that promise is pending.\<close>

definition resume :: "environment \<Rightarrow> nat \<Rightarrow> system \<Rightarrow> system" where
  "resume env k s =
     (let a = c_args (calls s ! k) in
      case status (calls s ! k) of
        AwaitOwn rid \<Rightarrow>
          (case phase (retrievals s ! rid) of
             Fulfilled chunks \<Rightarrow> setStatus k (Returned chunks) (clearInFlight (cacheKey a) s)
           | Rejected e \<Rightarrow> setStatus k (Threw e) (clearInFlight (cacheKey a) s)
           | _ \<Rightarrow> s)
      | AwaitInFlight rid \<Rightarrow>
          (case phase (retrievals s ! rid) of
             Rejected e \<Rightarrow> setStatus k (Threw e) s
           | Fulfilled chunks \<Rightarrow>
               (case chunkCache s (cacheKey a) of
                  None \<Rightarrow> startFetch env k s
                | Some ready \<Rightarrow>
                    if int (length (chunksByIndex ready)) = totalChunks a
                    then setStatus k (Returned (sortedChunks (chunksByIndex ready))) s
                    else startFetch env k s)
           | _ \<Rightarrow> s)
      | _ \<Rightarrow> s)"

text \<open>
  The continuations queued when a promise settles run in the order of registration, which
  is the order of the calls. A continuation that starts a retrieval needing no
  subscription awaits a promise that is settled already and runs again after the others:
  the second pass.
\<close>

definition drain :: "environment \<Rightarrow> nat list \<Rightarrow> system \<Rightarrow> system" where
  "drain env ks s = fold (resume env) ks (fold (resume env) ks s)"

definition waiters :: "nat \<Rightarrow> system \<Rightarrow> nat list" where
  "waiters rid s =
     filter (\<lambda>k. status (calls s ! k) = AwaitOwn rid \<or> status (calls s ! k) = AwaitInFlight rid)
       [0 ..< length (calls s)]"

definition settle :: "environment \<Rightarrow> nat \<Rightarrow> system \<Rightarrow> system" where
  "settle env rid s =
     (if active (retrievals s ! rid) then s else drain env (waiters rid s) s)"

datatype action =
    Call call_args
  | Deliver nat event
  | Close nat

definition fetchChunks :: "environment \<Rightarrow> call_args \<Rightarrow> system \<Rightarrow> system" where
  "fetchChunks env a s =
     (let k = length (calls s);
          begin = (\<lambda>st. s\<lparr>calls := calls s @ [\<lparr>c_args = a, status = st\<rparr>]\<rparr>)
      in case chunkCache s (cacheKey a) of
           None \<Rightarrow> drain env [k] (startFetch env k (begin Running))
         | Some cached \<Rightarrow>
             if int (length (chunksByIndex cached)) = totalChunks a
             then begin (Returned (sortedChunks (chunksByIndex cached)))
             else (case inFlight cached of
                     Some p \<Rightarrow> drain env [k] (begin (AwaitInFlight p))
                   | None \<Rightarrow> drain env [k] (startFetch env k (begin Running))))"

definition deliver :: "environment \<Rightarrow> nat \<Rightarrow> event \<Rightarrow> system \<Rightarrow> system" where
  "deliver env rid ev s =
     (if rid < length (retrievals s) \<and> active (retrievals s ! rid) then
        (case handleEvent ev (retrievals s ! rid) (chunkCache s) of
           (r', cache') \<Rightarrow>
             (let s1 = s\<lparr>retrievals := (retrievals s)[rid := r'], chunkCache := cache'\<rparr>;
                  s2 = (if int (length (localChunks r')) \<ge> totalChunks (r_args r')
                        then advance env rid s1 else s1)
              in settle env rid s2))
      else s)"

definition close :: "environment \<Rightarrow> nat \<Rightarrow> system \<Rightarrow> system" where
  "close env rid s =
     (if rid < length (retrievals s) \<and> active (retrievals s ! rid)
      then settle env rid (advance env rid s)
      else s)"

fun step :: "environment \<Rightarrow> action \<Rightarrow> system \<Rightarrow> system" where
  "step env (Call a) s = fetchChunks env a s"
| "step env (Deliver rid ev) s = deliver env rid ev s"
| "step env (Close rid) s = close env rid s"

definition run :: "environment \<Rightarrow> action list \<Rightarrow> system \<Rightarrow> system" where
  "run env acts s = fold (step env) acts s"

section \<open>Concrete scenarios\<close>

text \<open>A chunk record whose \<open>chunk\<close> tag and whose \<open>d\<close> tag suffix are not numbers, requested
  by a call whose manifest lists the record's identifier under index 0.\<close>

definition untagged_event :: event where
  "untagged_event =
     \<lparr>ev_id = str ''e1'', created_at = 0,
      tags = [[str ''chunk'', str ''x''], [str ''d'', str ''f:part'']],
      ev_content = str ''data''\<rparr>"

definition listed_args :: call_args where
  "listed_args =
     \<lparr>relays = [], pubkey_arg = str ''pk'', fileHash = str ''h'', totalChunks = 1,
      onProgress = False,
      chunkInfos = Some [\<lparr>chunk_index = 0, event_id = Some (str ''e1'')\<rparr>]\<rparr>"

definition listed_retrieval :: retrieval where
  "listed_retrieval =
     \<lparr>r_args = listed_args, localChunks = [], seenEventIds = [],
      indexByEventId = buildIndexByEventId (chunkInfos listed_args), phase = IdsBatch 0,
      progress = []\<rparr>"

text \<open>A cache that holds both chunks of a file of two chunks, index 1 inserted first.\<close>

definition two_chunk_args :: call_args where
  "two_chunk_args =
     \<lparr>relays = [str ''wss://r''], pubkey_arg = str ''pk'', fileHash = str ''h'',
      totalChunks = 2, onProgress = True, chunkInfos = None\<rparr>"

definition chunk_of :: "int \<Rightarrow> ChunkEvent" where
  "chunk_of i = \<lparr>index = i, content = str ''data'', encryption = str ''none''\<rparr>"

definition complete_cache :: system where
  "complete_cache =
     init\<lparr>chunkCache :=
            [cacheKey two_chunk_args \<mapsto>
               \<lparr>chunksByIndex = [(1, chunk_of 1), (0, chunk_of 0)], inFlight = None\<rparr>]\<rparr>"

definition quiet_pool :: environment where
  "quiet_pool = \<lparr>CHUNK = 30078, subscribeThrows = (\<lambda>n. None)\<rparr>"

text \<open>A pool that answers from a fixed table, with parsers that know a few payloads.\<close>

definition demo_event :: "string \<Rightarrow> int \<Rightarrow> string \<Rightarrow> event" where
  "demo_event i t c = \<lparr>ev_id = str i, created_at = t, tags = [], ev_content = str c\<rparr>"

definition demo_answers :: "filter \<Rightarrow> event list" where
  "demo_answers f =
     (if authors f = [str ''alice''] \<and> tag_d f = Some [str ''index'']
        then [demo_event ''a1'' 20 ''index v2'', demo_event ''a0'' 10 ''index v1'']
      else if authors f = [str ''alice''] \<and> tag_d f = Some [str ''archive-3'']
        then [demo_event ''a2'' 5 ''index v1'']
      else if authors f = [str ''alice''] \<and> tag_d f = Some [str ''archive-2'']
        then [demo_event ''a3'' 5 ''garbage'']
      else if authors f = [str ''bob''] \<and> tag_d f = Some [str ''index'']
        then [demo_event ''b0'' 10 ''index v2'', demo_event ''b1'' 20 ''index v1'']
      else if authors f = [str ''carol''] \<and> tag_d f = Some [str ''index'']
        then [demo_event ''c0'' 10 ''garbage'']
      else if tag_x f = Some [str ''h1'']
        then [demo_event ''m0'' 10 ''manifest v2'', demo_event ''m1'' 30 ''manifest v3'',
              demo_event ''m2'' 20 ''manifest v2'']
      else if tag_d f = Some [str ''h2'']
        then [demo_event ''m3'' 10 ''garbage'']
      else [])"

definition demo_manifest :: "int \<Rightarrow> Manifest" where
  "demo_manifest v =
     \<lparr>version = VNum v, file_name = str ''f'', total_chunks = 1, manifest_relays = [],
      manifest_encryption = str ''none'', chunk_infos = []\<rparr>"

definition demo_resolver :: "nat resolver" where
  "demo_resolver =
     \<lparr>INDEX = 1, MANIFEST = 2, CURRENT_INDEX = str ''index'',
      archiveTag = (\<lambda>n. str ''archive-'' @ [of_int (48 + n)]),
      querySync = (\<lambda>p rl f. (demo_answers f, Suc p)),
      parseIndex = (\<lambda>c. if c = str ''index v2''
                          then Some (JsonValue \<lparr>version = VNum 2, total_archives = 3\<rparr>)
                          else if c = str ''index v1''
                          then Some (JsonValue \<lparr>version = VNum 1, total_archives = 0\<rparr>)
                          else None),
      parseManifest = (\<lambda>c. if c = str ''manifest v2'' then Some (JsonValue (demo_manifest 2))
                             else if c = str ''manifest v3'' then Some (JsonValue (demo_manifest 3))
                             else None)\<rparr>"


text \<open>A decryption library under which a ciphertext decrypts to itself.\<close>

definition transparent_nip44 :: "unit nip44" where
  "transparent_nip44 =
     \<lparr>getConversationKey = (\<lambda>sk pk. Inr ()), decrypt = (\<lambda>ciphertext k. Inr ciphertext)\<rparr>"

section \<open>Properties\<close>

subsection \<open>Hexadecimal keys\<close>

lemma matchHexTimes_iff:
  "matchHexTimes n s \<longleftrightarrow> length s = n \<and> (\<forall>c \<in> set s. hexClass c)"
proof (induction n s rule: matchHexTimes.induct)
  case (1 s)
  then show ?case by auto
next
  case (2 n)
  then show ?case by simp
next
  case (3 n c s)
  then show ?case by auto
qed

lemma hexClass_set: "hexClass c \<longleftrightarrow> c \<in> set (str ''0123456789abcdefABCDEF'')"
proof
  assume "hexClass c"
  then have "unat c \<in> {48,49,50,51,52,53,54,55,56,57,97,98,99,100,101,102,65,66,67,68,69,70}"
    unfolding hexClass_def word_le_nat_alt by simp arith
  then have "c \<in> of_nat ` {48,49,50,51,52,53,54,55,56,57,97,98,99,100,101,102,65,66,67,68,69,70}"
    by (metis image_eqI of_nat_unat ucast_id)
  then show "c \<in> set (str ''0123456789abcdefABCDEF'')"
    by (simp add: str_def)
next
  assume "c \<in> set (str ''0123456789abcdefABCDEF'')"
  then show "hexClass c"
    by (auto simp: str_def hexClass_def)
qed

lemma hexClass_range: "hexClass c \<Longrightarrow> 48 \<le> unat c \<and> unat c \<le> 102"
  unfolding hexClass_def word_le_nat_alt by simp arith

lemma isWhiteSpace_range: "isWhiteSpace c \<Longrightarrow> unat c \<le> 32 \<or> 160 \<le> unat c"
proof -
  assume "isWhiteSpace c"
  then have "c \<in> set [0x09, 0x0A, 0x0B, 0x0C, 0x0D, 0x20, 0xA0, 0x1680, 0x2028, 0x2029, 0x202F,
              0x205F, 0x3000, 0xFEFF] \<or> 0x2000 \<le> c"
    by (simp only: isWhiteSpace_def) blast
  then show ?thesis
  proof
    assume "c \<in> set [0x09, 0x0A, 0x0B, 0x0C, 0x0D, 0x20, 0xA0, 0x1680, 0x2028, 0x2029, 0x202F,
              0x205F, 0x3000, 0xFEFF]"
    then have "unat c \<in> unat ` set [0x09, 0x0A, 0x0B, 0x0C, 0x0D, 0x20, 0xA0, 0x1680, 0x2028, 0x2029, 0x202F,
              0x205F, 0x3000, 0xFEFF :: 16 word]"
      by (rule imageI)
    then show ?thesis by auto
  next
    assume "0x2000 \<le> c"
    then show ?thesis by (simp add: word_le_nat_alt)
  qed
qed

lemma hexClass_not_ws: "hexClass c \<Longrightarrow> \<not> isWhiteSpace c"
  using hexClass_range [of c] isWhiteSpace_range [of c] by auto

lemma trim_id: "\<forall>c \<in> set s. \<not> isWhiteSpace c \<Longrightarrow> trim s = s"
proof -
  assume a: "\<forall>c \<in> set s. \<not> isWhiteSpace c"
  have d: "\<And>t. \<forall>c \<in> set t. \<not> isWhiteSpace c \<Longrightarrow> dropWhile isWhiteSpace t = t"
    by (metis dropWhile_eq_self_iff list.set_sel(1)) 
  show ?thesis using a by (simp add: trim_def d)
qed


lemma hex_not_prefixed:
  assumes "\<forall>c \<in> set s. hexClass c"
  shows "\<not> startsWith s (str ''npub1'')" and "\<not> startsWith s (str ''nsec1'')"
proof -
  have n: "\<not> hexClass 0x6E" by (simp add: hexClass_def)
  have "\<And>p. startsWith s (0x6E # p) \<Longrightarrow> False"
  proof -
    fix p assume "startsWith s (0x6E # p)"
    then have "0x6E \<in> set s"
      by (cases s) (auto simp: startsWith_def)
    with assms n show False by blast
  qed
  then show "\<not> startsWith s (str ''npub1'')" and "\<not> startsWith s (str ''nsec1'')"
    by (auto simp: str_def)
qed

lemma normalize_hex:
  assumes "isValidHexPubkey input"
  shows "normalizeToPublicKey decode getPublicKey input
           = Inr \<lparr>pubkey = toLowerCase input, secretKey = None\<rparr>"
proof -
  from assms have h: "\<forall>c \<in> set input. hexClass c"
    by (simp add: isValidHexPubkey_def matchHexTimes_iff)
  then have t: "trim input = input"
    by (simp add: trim_id hexClass_not_ws)
  from h have "\<not> isValidNpub decode input" and "\<not> isValidNsec decode input"
    by (simp_all add: isValidNpub_def isValidNsec_def hex_not_prefixed)
  with assms t show ?thesis
    by (simp add: normalizeToPublicKey_def)
qed

lemma toLowerUnit_upper_hex:
  assumes "c \<in> set (str ''0123456789ABCDEF'')"
  shows "toLowerUnit c = (if c \<in> set (str ''ABCDEF'') then c + 0x20 else c)"
  using assms by (auto simp: str_def toLowerUnit_def)

text \<open>
  Claim C9. A string of exactly 64 uppercase hexadecimal characters (digits and \<open>A\<close> to
  \<open>F\<close>) is normalised, whatever the bech32 decoder answers, to the same string with
  \<open>A\<close> to \<open>F\<close> replaced by \<open>a\<close> to \<open>f\<close>, and no secret key; and the hex test holds
  exactly of the strings of 64 characters among \<open>0-9\<close>, \<open>a-f\<close>, \<open>A-F\<close>.
\<close>

theorem normalize_uppercase_hex:
  "(length input = 64 \<and> (\<forall>c \<in> set input. c \<in> set (str ''0123456789ABCDEF'')) \<longrightarrow>
      normalizeToPublicKey decode getPublicKey input
        = Inr \<lparr>pubkey = map (\<lambda>c. if c \<in> set (str ''ABCDEF'') then c + 0x20 else c) input,
               secretKey = None\<rparr>)
   \<and> (isValidHexPubkey s \<longleftrightarrow>
        length s = 64 \<and> (\<forall>c \<in> set s. c \<in> set (str ''0123456789abcdefABCDEF'')))"
proof (intro conjI impI)
  assume a: "length input = 64 \<and> (\<forall>c \<in> set input. c \<in> set (str ''0123456789ABCDEF''))"
  then have "\<forall>c \<in> set input. hexClass c"
    by (auto simp: hexClass_set str_def)
  with a have v: "isValidHexPubkey input"
    by (simp add: isValidHexPubkey_def matchHexTimes_iff)
  from a have "toLowerCase input
      = map (\<lambda>c. if c \<in> set (str ''ABCDEF'') then c + 0x20 else c) input"
    unfolding toLowerCase_def by (intro map_cong refl toLowerUnit_upper_hex) blast
  with normalize_hex [OF v, of decode getPublicKey]
  show "normalizeToPublicKey decode getPublicKey input
        = Inr \<lparr>pubkey = map (\<lambda>c. if c \<in> set (str ''ABCDEF'') then c + 0x20 else c) input,
               secretKey = None\<rparr>"
    by simp
next
  show "isValidHexPubkey s \<longleftrightarrow>
        length s = 64 \<and> (\<forall>c \<in> set s. c \<in> set (str ''0123456789abcdefABCDEF''))"
    by (simp only: isValidHexPubkey_def matchHexTimes_iff hexClass_set)
qed

theorem normalize_uppercase_hex_witness:
  "length (str ''0123456789ABCDEF0123456789ABCDEF0123456789ABCDEF0123456789ABCDEF'') = 64
   \<and> set (str ''0123456789ABCDEF0123456789ABCDEF0123456789ABCDEF0123456789ABCDEF'')
         \<subseteq> set (str ''0123456789ABCDEF'')
   \<and> normalizeToPublicKey (\<lambda>s. Inl (LibraryError s)) (\<lambda>k. Inl (LibraryError []))
        (str ''0123456789ABCDEF0123456789ABCDEF0123456789ABCDEF0123456789ABCDEF'')
      = Inr \<lparr>pubkey = str ''0123456789abcdef0123456789abcdef0123456789abcdef0123456789abcdef'',
             secretKey = None\<rparr>
   \<and> isValidHexPubkey (str ''0123456789abcdef0123456789ABCDEF0123456789abcdef0123456789ABCDEF'')
   \<and> \<not> isValidHexPubkey (str ''0123456789abcdef0123456789ABCDEF0123456789abcdef0123456789ABCDE'')"
  using normalize_uppercase_hex
    [of "str ''0123456789ABCDEF0123456789ABCDEF0123456789ABCDEF0123456789ABCDEF''"
        "\<lambda>s. Inl (LibraryError s)" "\<lambda>k. Inl (LibraryError [])"
        "str ''0123456789abcdef0123456789ABCDEF0123456789abcdef0123456789ABCDEF''"]
    normalize_uppercase_hex
    [of "[]" "\<lambda>s. Inl (LibraryError s)" "\<lambda>k. Inl (LibraryError [])"
        "str ''0123456789abcdef0123456789ABCDEF0123456789abcdef0123456789ABCDE''"]
  by (simp add: str_def)

subsection \<open>Page addressing\<close>



subsection \<open>The index of a chunk record\<close>


lemmas scenario_defs =
  untagged_event_def listed_args_def listed_retrieval_def
  two_chunk_args_def chunk_of_def complete_cache_def quiet_pool_def init_def





subsection \<open>A complete cache entry\<close>

text \<open>
  Claim C7. When the cache entry of the key holds exactly \<open>totalChunks\<close> chunks, the call
  returns in the same step with the cached chunks arranged in ascending order of index;
  the step opens no subscription, starts no retrieval and leaves the cache as it was.
\<close>

theorem complete_cache_hit:
  "chunkCache s (cacheKey a) = Some cached \<and> int (length (chunksByIndex cached)) = totalChunks a
   \<longrightarrow> (\<exists>chunks.
          step env (Call a) s = s\<lparr>calls := calls s @ [\<lparr>c_args = a, status = Returned chunks\<rparr>]\<rparr>
        \<and> sorted (map index chunks)
        \<and> mset chunks = mset (map snd (chunksByIndex cached))
        \<and> chunkCache (step env (Call a) s) = chunkCache s
        \<and> subscriptions (step env (Call a) s) = subscriptions s
        \<and> retrievals (step env (Call a) s) = retrievals s)"
proof
  assume a: "chunkCache s (cacheKey a) = Some cached
             \<and> int (length (chunksByIndex cached)) = totalChunks a"
  let ?chunks = "sortedChunks (chunksByIndex cached)"
  have 1: "step env (Call a) s
           = s\<lparr>calls := calls s @ [\<lparr>c_args = a, status = Returned ?chunks\<rparr>]\<rparr>"
    using a by (simp add: fetchChunks_def)
  have 2: "sorted (map index ?chunks)"
    by (simp add: sortedChunks_def)
  have 3: "mset ?chunks = mset (map snd (chunksByIndex cached))"
    by (simp add: sortedChunks_def)
  show "\<exists>chunks.
          step env (Call a) s = s\<lparr>calls := calls s @ [\<lparr>c_args = a, status = Returned chunks\<rparr>]\<rparr>
        \<and> sorted (map index chunks)
        \<and> mset chunks = mset (map snd (chunksByIndex cached))
        \<and> chunkCache (step env (Call a) s) = chunkCache s
        \<and> subscriptions (step env (Call a) s) = subscriptions s
        \<and> retrievals (step env (Call a) s) = retrievals s"
    using 1 2 3 by (intro exI [of _ ?chunks]) simp
qed

theorem complete_cache_hit_witness:
  "chunkCache complete_cache (cacheKey two_chunk_args)
     = Some \<lparr>chunksByIndex = [(1, chunk_of 1), (0, chunk_of 0)], inFlight = None\<rparr>
   \<and> int (length [(1, chunk_of 1), (0, chunk_of 0)]) = totalChunks two_chunk_args
   \<and> step quiet_pool (Call two_chunk_args) complete_cache
       = complete_cache\<lparr>calls := [\<lparr>c_args = two_chunk_args,
                                     status = Returned [chunk_of 0, chunk_of 1]\<rparr>]\<rparr>"
  using complete_cache_hit
    [of complete_cache two_chunk_args
        "\<lparr>chunksByIndex = [(1, chunk_of 1), (0, chunk_of 0)], inFlight = None\<rparr>" quiet_pool]
  by (simp add: fetchChunks_def scenario_defs sortedChunks_def cacheKey_def)

subsection \<open>Resolving index and manifest records\<close>

lemma fetchFileIndex_current:
  "fetchFileIndex rs rl pk 1 net =
     (case query rs rl (indexFilter rs pk (CURRENT_INDEX rs)) net of
        (events, net1) \<Rightarrow>
          (case events of
             [] \<Rightarrow> (Inr None, net1)
           | e # es \<Rightarrow> (readIndex rs (mostRecent e es), net1)))"
  by (subst fetchFileIndex.simps) simp

lemma fetchFileIndex_archive:
  "page \<noteq> 1 \<Longrightarrow> fetchFileIndex rs rl pk page net =
     (case fetchFileIndex rs rl pk 1 net of
        (Inl err, net1) \<Rightarrow> (Inl err, net1)
      | (Inr None, net1) \<Rightarrow> (Inr None, net1)
      | (Inr (Some currentIndex), net1) \<Rightarrow>
          (let dTag = getDTagForPage (CURRENT_INDEX rs) (archiveTag rs) page
                        (total_archives currentIndex)
           in case query rs rl (indexFilter rs pk dTag) net1 of
                (events, net2) \<Rightarrow>
                  (case events of
                     [] \<Rightarrow> (Inr None, net2)
                   | e # es \<Rightarrow> (readIndex rs (mostRecent e es), net2))))"
  by (subst fetchFileIndex.simps) simp

lemma mostRecent_mem: "mostRecent e es \<in> set (e # es)"
  unfolding mostRecent_def by (induction es arbitrary: e) auto

lemma mostRecent_ge_start: "created_at e \<le> created_at (mostRecent e es)"
  unfolding mostRecent_def
proof (induction es arbitrary: e)
  case Nil
  then show ?case by simp
next
  case (Cons b es)
  show ?case
  proof (cases "created_at e > created_at b")
    case True
    then show ?thesis using Cons [of e] by simp
  next
    case False
    then show ?thesis using Cons [of b] by simp
  qed
qed

lemma mostRecent_greatest: "x \<in> set (e # es) \<Longrightarrow> created_at x \<le> created_at (mostRecent e es)"
proof (induction es arbitrary: e)
  case Nil
  then show ?case by (simp add: mostRecent_def)
next
  case (Cons b es)
  have step: "mostRecent e (b # es) = mostRecent (if created_at e > created_at b then e else b) es"
    by (simp add: mostRecent_def)
  let ?m = "if created_at e > created_at b then e else b"
  have "created_at e \<le> created_at ?m" and "created_at b \<le> created_at ?m"
    by auto
  moreover have "created_at ?m \<le> created_at (mostRecent ?m es)"
    by (rule mostRecent_ge_start)
  moreover have "x \<in> set es \<Longrightarrow> created_at x \<le> created_at (mostRecent ?m es)"
    using Cons.IH [of ?m] by simp
  ultimately show ?case using Cons.prems unfolding step by auto
qed

lemmas demo_defs =
  demo_event_def demo_answers_def demo_manifest_def demo_resolver_def
  fetchFileIndex_current fetchFileIndex_archive fetchManifest_def manifestFilters_def
  readIndex_def readManifest_def query_def indexFilter_def mostRecent_def getDTagForPage_def
  str_def

text \<open>
  Claim C4. When the payload of the selected (most recent) record parses to a value other
  than \<open>null\<close> whose \<open>version\<close> is not the number 2, \<open>fetchFileIndex\<close> (for page 1 and for an
  archive page) and \<open>fetchManifest\<close> throw the unsupported-version error; they neither return
  the record nor answer \<open>null\<close>. The error of page 1 also ends the fetch of an archive page.
\<close>

theorem unsupported_version_raises:
  "(query rs rl (indexFilter rs pk (CURRENT_INDEX rs)) net = (e # es, net_a)
      \<and> parseIndex rs (ev_content (mostRecent e es)) = Some (JsonValue idx)
      \<and> version idx \<noteq> VNum 2
    \<longrightarrow> fetchFileIndex rs rl pk 1 net = (Inl (UnsupportedIndexVersion (version idx)), net_a))
   \<and> (page \<noteq> 1 \<and> fetchFileIndex rs rl pk 1 net = (Inl err, net_a)
    \<longrightarrow> fetchFileIndex rs rl pk page net = (Inl err, net_a))
   \<and> (page \<noteq> 1 \<and> fetchFileIndex rs rl pk 1 net = (Inr (Some cur), net_a)
      \<and> query rs rl
           (indexFilter rs pk
              (getDTagForPage (CURRENT_INDEX rs) (archiveTag rs) page (total_archives cur)))
           net_a = (a # as, net_b)
      \<and> parseIndex rs (ev_content (mostRecent a as)) = Some (JsonValue aidx)
      \<and> version aidx \<noteq> VNum 2
    \<longrightarrow> fetchFileIndex rs rl pk page net = (Inl (UnsupportedIndexVersion (version aidx)), net_b))
   \<and> (queryEach rs rl (manifestFilters rs pk hash) [] net = (m # ms, net_c)
      \<and> parseManifest rs (ev_content (mostRecent m ms)) = Some (JsonValue mf)
      \<and> version mf \<noteq> VNum 2
    \<longrightarrow> fetchManifest rs rl pk hash net = (Inl (UnsupportedManifestVersion (version mf)), net_c))"
  by (simp add: fetchFileIndex_current fetchFileIndex_archive readIndex_def readManifest_def
        fetchManifest_def)

theorem unsupported_version_raises_witness:
  "fst (fetchFileIndex demo_resolver [] (str ''bob'') 1 (0, []))
     = Inl (UnsupportedIndexVersion (VNum 1))
   \<and> fst (fetchFileIndex demo_resolver [] (str ''bob'') 2 (0, []))
     = Inl (UnsupportedIndexVersion (VNum 1))
   \<and> fst (fetchFileIndex demo_resolver [] (str ''alice'') 2 (0, []))
     = Inl (UnsupportedIndexVersion (VNum 1))
   \<and> fst (fetchManifest demo_resolver [] (str ''alice'') (str ''h1'') (0, []))
     = Inl (UnsupportedManifestVersion (VNum 3))"
  using
    unsupported_version_raises
      [where rs = demo_resolver and rl = "[]" and pk = "str ''bob''" and net = "(0, [])"
         and e = "demo_event ''b0'' 10 ''index v2''" and es = "[demo_event ''b1'' 20 ''index v1'']"
         and idx = "\<lparr>version = VNum 1, total_archives = 0\<rparr>"
         and net_a = "(1, [([], indexFilter demo_resolver (str ''bob'') (str ''index''))])"
         and page = 2 and err = "UnsupportedIndexVersion (VNum 1)"
         and hash = "str ''h1''"]
    unsupported_version_raises
      [where rs = demo_resolver and rl = "[]" and pk = "str ''alice''" and net = "(0, [])"
         and net_a = "(1, [([], indexFilter demo_resolver (str ''alice'') (str ''index''))])"
         and page = 2 and cur = "\<lparr>version = VNum 2, total_archives = 3\<rparr>"
         and a = "demo_event ''a2'' 5 ''index v1''" and as = "[]"
         and aidx = "\<lparr>version = VNum 1, total_archives = 0\<rparr>"
         and hash = "str ''h1''"
         and m = "demo_event ''m0'' 10 ''manifest v2''"
         and ms = "[demo_event ''m1'' 30 ''manifest v3'', demo_event ''m2'' 20 ''manifest v2'']"
         and mf = "demo_manifest 3"]
  by (simp add: demo_defs)




text \<open>
  Claim C6. \<open>fetchManifest\<close> first issues the query by \<open>#x\<close>; it issues the query by \<open>#d\<close> exactly
  when the first returned no event. The events of the first query that returned some are the
  candidates, and the manifest is read from a candidate whose \<open>created_at\<close> is greatest.
\<close>

theorem manifest_query_order:
  "query rs rl \<lparr>kinds = [MANIFEST rs], authors = [pk], tag_d = None, tag_x = Some [hash],
                 ids = None, limit = Some 1\<rparr> net = (ex, net_a)
   \<and> query rs rl \<lparr>kinds = [MANIFEST rs], authors = [pk], tag_d = Some [hash], tag_x = None,
                   ids = None, limit = Some 1\<rparr> net_a = (ed, net_b)
   \<longrightarrow> (let accepted = (if ex \<noteq> [] then ex else ed);
            r = fetchManifest rs rl pk hash net
        in snd r = (if ex \<noteq> [] then net_a else net_b)
         \<and> snd (snd r)
             = snd net @
               (if ex \<noteq> []
                then [(rl, \<lparr>kinds = [MANIFEST rs], authors = [pk], tag_d = None,
                            tag_x = Some [hash], ids = None, limit = Some 1\<rparr>)]
                else [(rl, \<lparr>kinds = [MANIFEST rs], authors = [pk], tag_d = None,
                            tag_x = Some [hash], ids = None, limit = Some 1\<rparr>),
                      (rl, \<lparr>kinds = [MANIFEST rs], authors = [pk], tag_d = Some [hash],
                            tag_x = None, ids = None, limit = Some 1\<rparr>)])
         \<and> (accepted = [] \<longrightarrow> fst r = Inr None)
         \<and> (accepted \<noteq> [] \<longrightarrow>
               (\<exists>w \<in> set accepted.
                  (\<forall>e \<in> set accepted. created_at e \<le> created_at w)
                  \<and> fst r = readManifest rs w)))"
proof
  let ?xf = "\<lparr>kinds = [MANIFEST rs], authors = [pk], tag_d = None, tag_x = Some [hash],
               ids = None, limit = Some 1\<rparr>"
  let ?df = "\<lparr>kinds = [MANIFEST rs], authors = [pk], tag_d = Some [hash], tag_x = None,
               ids = None, limit = Some 1\<rparr>"
  assume q: "query rs rl ?xf net = (ex, net_a) \<and> query rs rl ?df net_a = (ed, net_b)"
  let ?accepted = "if ex \<noteq> [] then ex else ed"
  let ?r = "fetchManifest rs rl pk hash net"
  have each: "queryEach rs rl (manifestFilters rs pk hash) [] net
              = (?accepted, if ex \<noteq> [] then net_a else net_b)"
    using q by (simp add: manifestFilters_def)
  have log1: "snd net_a = snd net @ [(rl, ?xf)]"
    using q by (auto simp: query_def split: prod.splits)
  have log2: "snd net_b = snd net_a @ [(rl, ?df)]"
    using q by (auto simp: query_def split: prod.splits)
  have s: "snd ?r = (if ex \<noteq> [] then net_a else net_b)"
    unfolding fetchManifest_def each by (simp split: list.splits)
  have l: "snd (snd ?r) = snd net @ (if ex \<noteq> [] then [(rl, ?xf)] else [(rl, ?xf), (rl, ?df)])"
    unfolding s using log1 log2 by simp
  have n: "?accepted = [] \<longrightarrow> fst ?r = Inr None"
    unfolding fetchManifest_def each by simp
  have w: "?accepted \<noteq> [] \<longrightarrow>
             (\<exists>w \<in> set ?accepted.
                (\<forall>e \<in> set ?accepted. created_at e \<le> created_at w) \<and> fst ?r = readManifest rs w)"
  proof
    assume "?accepted \<noteq> []"
    then obtain m ms where ms: "?accepted = m # ms"
      by (cases ?accepted) auto
    have "fst ?r = readManifest rs (mostRecent m ms)"
      unfolding fetchManifest_def each ms by simp
    moreover have "mostRecent m ms \<in> set ?accepted"
      unfolding ms by (rule mostRecent_mem)
    moreover have "\<forall>e \<in> set ?accepted. created_at e \<le> created_at (mostRecent m ms)"
      unfolding ms using mostRecent_greatest by blast
    ultimately show "\<exists>w \<in> set ?accepted.
                (\<forall>e \<in> set ?accepted. created_at e \<le> created_at w) \<and> fst ?r = readManifest rs w"
      by blast
  qed
  from s l n w
  show "let accepted = (if ex \<noteq> [] then ex else ed);
            r = fetchManifest rs rl pk hash net
        in snd r = (if ex \<noteq> [] then net_a else net_b)
         \<and> snd (snd r)
             = snd net @
               (if ex \<noteq> []
                then [(rl, ?xf)]
                else [(rl, ?xf), (rl, ?df)])
         \<and> (accepted = [] \<longrightarrow> fst r = Inr None)
         \<and> (accepted \<noteq> [] \<longrightarrow>
               (\<exists>w \<in> set accepted.
                  (\<forall>e \<in> set accepted. created_at e \<le> created_at w)
                  \<and> fst r = readManifest rs w))"
    unfolding Let_def by blast
qed

theorem manifest_query_order_witness:
  "snd (snd (fetchManifest demo_resolver [] (str ''alice'') (str ''h1'') (0, [])))
     = [([], \<lparr>kinds = [2], authors = [str ''alice''], tag_d = None, tag_x = Some [str ''h1''],
              ids = None, limit = Some 1\<rparr>)]
   \<and> fst (fetchManifest demo_resolver [] (str ''alice'') (str ''h1'') (0, []))
       = readManifest demo_resolver (demo_event ''m1'' 30 ''manifest v3'')
   \<and> snd (snd (fetchManifest demo_resolver [] (str ''alice'') (str ''h2'') (0, [])))
     = [([], \<lparr>kinds = [2], authors = [str ''alice''], tag_d = None, tag_x = Some [str ''h2''],
              ids = None, limit = Some 1\<rparr>),
        ([], \<lparr>kinds = [2], authors = [str ''alice''], tag_d = Some [str ''h2''], tag_x = None,
              ids = None, limit = Some 1\<rparr>)]
   \<and> fetchManifest demo_resolver [] (str ''alice'') (str ''h3'') (0, [])
     = (Inr None,
        (2, [([], \<lparr>kinds = [2], authors = [str ''alice''], tag_d = None,
                  tag_x = Some [str ''h3''], ids = None, limit = Some 1\<rparr>),
             ([], \<lparr>kinds = [2], authors = [str ''alice''], tag_d = Some [str ''h3''],
                  tag_x = None, ids = None, limit = Some 1\<rparr>)]))"
  using
    manifest_query_order
      [where rs = demo_resolver and rl = "[]" and pk = "str ''alice''" and hash = "str ''h1''"
         and net = "(0, [])"
         and ex = "[demo_event ''m0'' 10 ''manifest v2'', demo_event ''m1'' 30 ''manifest v3'',
                    demo_event ''m2'' 20 ''manifest v2'']"
         and net_a = "(1, [([], \<lparr>kinds = [2], authors = [str ''alice''], tag_d = None,
                     tag_x = Some [str ''h1''], ids = None, limit = Some 1\<rparr>)])"
         and ed = "[]"
         and net_b = "(2, [([], \<lparr>kinds = [2], authors = [str ''alice''], tag_d = None,
                     tag_x = Some [str ''h1''], ids = None, limit = Some 1\<rparr>),
                     ([], \<lparr>kinds = [2], authors = [str ''alice''], tag_d = Some [str ''h1''],
                     tag_x = None, ids = None, limit = Some 1\<rparr>)])"]
    manifest_query_order
      [where rs = demo_resolver and rl = "[]" and pk = "str ''alice''" and hash = "str ''h2''"
         and net = "(0, [])"
         and ex = "[]"
         and net_a = "(1, [([], \<lparr>kinds = [2], authors = [str ''alice''], tag_d = None,
                     tag_x = Some [str ''h2''], ids = None, limit = Some 1\<rparr>)])"
         and ed = "[demo_event ''m3'' 10 ''garbage'']"
         and net_b = "(2, [([], \<lparr>kinds = [2], authors = [str ''alice''], tag_d = None,
                     tag_x = Some [str ''h2''], ids = None, limit = Some 1\<rparr>),
                     ([], \<lparr>kinds = [2], authors = [str ''alice''], tag_d = Some [str ''h2''],
                     tag_x = None, ids = None, limit = Some 1\<rparr>)])"]
  by (simp add: demo_defs)

subsection \<open>Base64 and the two decryption entry points\<close>

lemma b64encode_sextets:
  "b64encode bs = map b64char (sextets bs) @ replicate (padding bs) 0x3D"
  by (induction bs rule: b64encode.induct) (simp_all add: numeral_2_eq_2)

lemma sextet_1: "a < 256 \<Longrightarrow> a div 4 < (64::nat)"
  by simp

lemma sextet_2: "b < 256 \<Longrightarrow> a mod 4 * 16 + b div 16 < (64::nat)"
proof -
  assume "b < 256"
  then have "b div 16 < 16" by simp
  moreover have "a mod 4 < 4" by simp
  ultimately show ?thesis by linarith
qed

lemma sextet_3: "c < 256 \<Longrightarrow> b mod 16 * 4 + c div 64 < (64::nat)"
proof -
  assume "c < 256"
  then have "c div 64 < 4" by simp
  moreover have "b mod 16 < 16" by simp
  ultimately show ?thesis by linarith
qed

lemma byte_1: "b < 256 \<Longrightarrow> a div 4 * 4 + (a mod 4 * 16 + b div 16) div 16 = (a::nat)"
proof -
  assume "b < 256"
  then have "b div 16 < 16" by simp
  then have "(a mod 4 * 16 + b div 16) div 16 = a mod 4" by simp
  then show ?thesis by simp
qed

lemma byte_2:
  "b < 256 \<Longrightarrow> c < 256 \<Longrightarrow>
   ((a mod 4 * 16 + b div 16) mod 16) * 16 + (b mod 16 * 4 + c div 64) div 4 = (b::nat)"
proof -
  assume b: "b < 256" and "c < 256"
  then have c: "c div 64 < 4" by simp
  from b have b16: "b div 16 < 16" by simp
  have 1: "(a mod 4 * 16 + b div 16) mod 16 = b div 16" using b16 by simp
  have 2: "(b mod 16 * 4 + c div 64) div 4 = b mod 16" using c by simp
  show ?thesis unfolding 1 2 by simp
qed

lemma byte_3: "c < 256 \<Longrightarrow> ((b mod 16 * 4 + c div 64) mod 4) * 64 + c mod 64 = (c::nat)"
proof -
  assume "c < 256"
  then have c: "c div 64 < 4" by simp
  have 1: "(b mod 16 * 4 + c div 64) mod 4 = c div 64" using c by simp
  show ?thesis unfolding 1 by simp
qed

lemma byte_2_last: "b < 256 \<Longrightarrow> ((a mod 4 * 16 + b div 16) mod 16) * 16 + (b mod 16 * 4) div 4 = (b::nat)"
  using byte_2 [of b 0 a] by simp

lemma sextets_bound: "\<forall>b \<in> set bs. b < 256 \<Longrightarrow> \<forall>v \<in> set (sextets bs). v < 64"
proof (induction bs rule: sextets.induct)
  case 1
  then show ?case by simp
next
  case (2 a)
  then show ?case by simp
next
  case (3 a b)
  then show ?case using sextet_1 [of a] sextet_2 [of b a] by simp
next
  case (4 a b c bs)
  then show ?case using sextet_1 [of a] sextet_2 [of b a] sextet_3 [of c b] by simp
qed

lemma b64decode_sextets: "\<forall>b \<in> set bs. b < 256 \<Longrightarrow> b64decode (sextets bs) = bs"
proof (induction bs rule: sextets.induct)
  case 1
  then show ?case by simp
next
  case (2 a)
  then show ?case by simp
next
  case (3 a b)
  then show ?case using byte_1 [of b a] byte_2_last [of b a] by simp
next
  case (4 a b c bs)
  then show ?case using byte_1 [of b a] byte_2 [of b c a] byte_3 [of c b] by simp
qed

lemma sextets_shape:
  "(length (sextets bs) + padding bs) mod 4 = 0 \<and> padding bs \<le> 2
   \<and> length (sextets bs) mod 4 \<noteq> 1"
  by (induction bs rule: sextets.induct) simp_all


lemma unat_word16: "k < 65536 \<Longrightarrow> unat (of_nat k :: 16 word) = k"
  by (simp add: unat_of_nat)

lemma unat_b64char:
  assumes "n < 64"
  shows "unat (b64char n) =
     (if n < 26 then 65 + n else if n < 52 then 71 + n else if n < 62 then n - 4
      else if n = 62 then 43 else 47)"
proof -
  consider "n < 26" | "26 \<le> n \<and> n < 52" | "52 \<le> n \<and> n < 62" | "n = 62" | "n = 63"
    using assms by linarith
  then show ?thesis
  proof cases
    case 1
    then have "b64char n = of_nat (65 + n)" by (simp only: b64char_def if_True)
    moreover have "unat (of_nat (65 + n) :: 16 word) = 65 + n"
      using 1 by (intro unat_word16) linarith
    ultimately have "unat (b64char n) = 65 + n" by (simp only:)
    with 1 show ?thesis by (simp only: if_True)
  next
    case 2
    then have "b64char n = of_nat (97 + (n - 26))" by (simp only: b64char_def) simp
    moreover have "unat (of_nat (97 + (n - 26)) :: 16 word) = 97 + (n - 26)"
      using 2 by (intro unat_word16) linarith
    ultimately have "unat (b64char n) = 97 + (n - 26)" by (simp only:)
    with 2 show ?thesis by simp
  next
    case 3
    then have "b64char n = of_nat (48 + (n - 52))" by (simp only: b64char_def) simp
    moreover have "unat (of_nat (48 + (n - 52)) :: 16 word) = 48 + (n - 52)"
      using 3 by (intro unat_word16) linarith
    ultimately have "unat (b64char n) = 48 + (n - 52)" by (simp only:)
    with 3 show ?thesis by simp
  next
    case 4
    then show ?thesis by (simp add: b64char_def)
  next
    case 5
    then show ?thesis by (simp add: b64char_def)
  qed
qed

lemma b64value_b64char: "n < 64 \<Longrightarrow> b64value (b64char n) = Some n"
  unfolding b64value_def Let_def by (simp only: unat_b64char) auto

lemma b64char_plain:
  "n < 64 \<Longrightarrow> \<not> isAsciiWhitespace (b64char n) \<and> b64char n \<noteq> 0x3D"
proof -
  assume n: "n < 64"
  then have "43 \<le> unat (b64char n)" and "unat (b64char n) \<noteq> 61"
    by (auto simp: unat_b64char)
  then show ?thesis
    by (auto simp: isAsciiWhitespace_def)
qed

lemma those_b64value:
  "\<forall>v \<in> set vs. v < 64 \<Longrightarrow> those (map b64value (map b64char vs)) = Some vs"
  by (induction vs) (simp_all add: b64value_b64char)

lemma stripPadding_padded:
  assumes "p \<le> 2" and "xs = [] \<or> last xs \<noteq> 0x3D"
  shows "stripPadding (xs @ replicate p 0x3D) = xs"
proof -
  from assms(1) consider "p = 0" | "p = 1" | "p = 2" by linarith
  then show ?thesis
  proof cases
    case 1
    with assms(2) show ?thesis by (auto simp: stripPadding_def)
  next
    case 2
    with assms(2) show ?thesis by (auto simp: stripPadding_def)
  next
    case 3
    with assms(2) show ?thesis
      by (auto simp: stripPadding_def numeral_2_eq_2 butlast_append)
  qed
qed

lemma atob_b64encode:
  assumes "\<forall>b \<in> set bs. b < 256"
  shows "atob (b64encode bs) = Inr (map of_nat bs)"
proof -
  let ?body = "map b64char (sextets bs)"
  let ?enc = "?body @ replicate (padding bs) 0x3D"
  have small: "\<forall>v \<in> set (sextets bs). v < 64"
    using assms by (rule sextets_bound)
  have plain: "\<forall>c \<in> set ?body. \<not> isAsciiWhitespace c \<and> c \<noteq> 0x3D"
    using small b64char_plain by auto
  have eq: "\<not> isAsciiWhitespace (0x3D :: 16 word)"
    by (simp add: isAsciiWhitespace_def)
  have f: "filter (\<lambda>c. \<not> isAsciiWhitespace c) ?enc = ?enc"
    using plain eq by (auto simp: filter_id_conv)
  have len: "length ?enc mod 4 = 0"
    using sextets_shape [of bs] by simp
  have lst: "?body = [] \<or> last ?body \<noteq> 0x3D"
    using plain last_in_set by blast
  have strip: "stripPadding ?enc = ?body"
    using sextets_shape [of bs] lst by (intro stripPadding_padded) auto
  have l1: "length ?body mod 4 \<noteq> 1"
    using sextets_shape [of bs] by simp
  have th: "those (map b64value ?body) = Some (sextets bs)"
    using small by (rule those_b64value)
  have dec: "b64decode (sextets bs) = bs"
    using assms by (rule b64decode_sextets)
  show ?thesis
    unfolding b64encode_sextets atob_def Let_def f
    using len l1 by (simp only: strip th dec if_True if_False option.case refl)
qed

lemma unat_ucast_byte: "unat (ucast (x :: 8 word) :: 16 word) = unat x"
proof -
  have "unat x < 2 ^ 16"
    using unsigned_less [of x, where 'a = nat] by simp
  then show ?thesis
    by (simp add: unsigned_ucast_eq take_bit_nat_eq_self)
qed

lemma byte_round: "(ucast (ucast (x :: 8 word) :: 16 word) :: 8 word) = x"
  by (rule ucast_up_ucast_id) (simp add: is_up)

lemma ascii_round: "c < 0x80 \<Longrightarrow> (ucast (ucast (c :: 16 word) :: 8 word) :: 16 word) = c"
proof -
  assume "c < 0x80"
  then have c: "unat c < 128" by (simp add: word_less_nat_alt)
  then have "unat (ucast c :: 8 word) = unat c"
    by (simp add: unsigned_ucast_eq take_bit_nat_eq_self)
  then have "unat (ucast (ucast c :: 8 word) :: 16 word) = unat c"
    by (simp add: unat_ucast_byte)
  then show ?thesis by (simp add: word_unat_eq_iff)
qed

lemma ucast_byte_le: "(ucast (x :: 8 word) :: 16 word) \<le> 0xFF"
proof -
  have "unat x < 256" using unsigned_less [of x, where 'a = nat] by simp
  then show ?thesis by (simp add: word_le_nat_alt unat_ucast_byte)
qed


lemmas base64_defs =
  atob_def btoa_def base64ToUint8Array_def uint8ArrayToBase64_def b64value_def b64char_def
  stripPadding_def isAsciiWhitespace_def decryptChunk_def decryptChunkBinary_def
  transparent_nip44_def str_def


text \<open>
  Claim C10. For every array of bytes, \<open>uint8ArrayToBase64\<close> succeeds and
  \<open>base64ToUint8Array\<close> of its result gives the same bytes back, of the same length.
\<close>

theorem base64_round_trip:
  "\<exists>s. uint8ArrayToBase64 b = Inr s \<and> base64ToUint8Array s = Inr b"
proof -
  have le: "\<not> (\<exists>c \<in> set (map ucast b :: jsstring). 0xFF < c)"
    using ucast_byte_le by (auto simp: not_less)
  have enc: "uint8ArrayToBase64 b = Inr (b64encode (map unat b))"
    unfolding uint8ArrayToBase64_def btoa_def using le
    by (simp add: unat_ucast_byte comp_def)
  have small: "\<forall>n \<in> set (map unat b). n < 256"
    using unsigned_less [where 'a = nat and 'b = 8] by auto
  have "atob (b64encode (map unat b)) = Inr (map of_nat (map unat b))"
    using small by (rule atob_b64encode)
  then have "base64ToUint8Array (b64encode (map unat b)) = Inr b"
    by (simp add: base64ToUint8Array_def comp_def byte_round)
  with enc show ?thesis by blast
qed

theorem base64_round_trip_witness:
  "uint8ArrayToBase64 [0, 255, 16, 8] = Inr (str ''AP8QCA=='')
   \<and> base64ToUint8Array (str ''AP8QCA=='') = Inr [0, 255, 16, 8]"
  using base64_round_trip [of "[0, 255, 16, 8]"]
  by (simp add: base64_defs)

lemma those_all_Some: "those xs = Some ys \<Longrightarrow> \<forall>x \<in> set xs. x \<noteq> None"
  by (induction xs arbitrary: ys) (auto split: option.splits)

lemma b64value_range: "b64value c \<noteq> None \<Longrightarrow> unat c \<le> 122"
proof (rule ccontr)
  assume a: "b64value c \<noteq> None" and "\<not> unat c \<le> 122"
  then have "122 < unat c" by simp
  then have "b64value c = None"
    by (simp add: b64value_def Let_def)
  with a show False by simp
qed
lemma b64value_ascii: "b64value c \<noteq> None \<Longrightarrow> c < 0x80"
  using b64value_range [of c] by (simp add: word_less_nat_alt)

lemma set_butlast_last:
  assumes "xs \<noteq> []"
  shows "set xs = insert (last xs) (set (butlast xs))"
proof -
  from assms have e: "butlast xs @ [last xs] = xs" by (rule append_butlast_last_id)
  have "set (butlast xs @ [last xs]) = insert (last xs) (set (butlast xs))" by simp
  then show ?thesis unfolding e .
qed

lemma stripPadding_cases:
  "stripPadding d = d \<or> (d \<noteq> [] \<and> last d = 0x3D \<and>
     (stripPadding d = butlast d
      \<or> (butlast d \<noteq> [] \<and> last (butlast d) = 0x3D \<and> stripPadding d = butlast (butlast d))))"
  unfolding stripPadding_def by presburger

lemma stripPadding_mem: "c \<in> set d \<Longrightarrow> c \<in> set (stripPadding d) \<or> c = 0x3D"
proof -
  assume c: "c \<in> set d"
  from stripPadding_cases [of d] consider
      "stripPadding d = d"
    | "d \<noteq> []" "last d = 0x3D" "stripPadding d = butlast d"
    | "d \<noteq> []" "last d = 0x3D" "butlast d \<noteq> []" "last (butlast d) = 0x3D"
      "stripPadding d = butlast (butlast d)"
    by blast
  then show ?thesis
  proof cases
    case 1
    with c show ?thesis by simp
  next
    case 2
    have "set d = insert (last d) (set (butlast d))"
      using 2(1) by (rule set_butlast_last)
    with c 2 show ?thesis by auto
  next
    case 3
    have "set d = insert (last d) (set (butlast d))"
      using 3(1) by (rule set_butlast_last)
    moreover have "set (butlast d) = insert (last (butlast d)) (set (butlast (butlast d)))"
      using 3(3) by (rule set_butlast_last)
    ultimately show ?thesis using c 3(2,4,5) by auto
  qed
qed

lemma atob_ascii:
  assumes "atob s = Inr bin"
  shows "\<forall>c \<in> set s. c < 0x80"
proof
  fix c assume c: "c \<in> set s"
  let ?raw = "filter (\<lambda>c. \<not> isAsciiWhitespace c) s"
  let ?dat = "if length ?raw mod 4 = 0 then stripPadding ?raw else ?raw"
  have "\<exists>vs. those (map b64value ?dat) = Some vs"
  proof (cases "those (map b64value ?dat)")
    case None
    then have "atob s = Inl InvalidCharacterError"
      unfolding atob_def Let_def by simp
    with assms show ?thesis by simp
  next
    case (Some vs)
    then show ?thesis by blast
  qed
  then have "\<forall>x \<in> set (map b64value ?dat). x \<noteq> None"
    using those_all_Some by blast
  then have ok: "\<forall>x \<in> set ?dat. x < 0x80"
    using b64value_ascii by simp
  show "c < 0x80"
  proof (cases "isAsciiWhitespace c")
    case True
    then have "c \<in> set [0x09, 0x0A, 0x0C, 0x0D, 0x20]"
      by (simp only: isAsciiWhitespace_def)
    then show ?thesis by auto
  next
    case False
    with c have m: "c \<in> set ?raw" by simp
    show ?thesis
    proof (cases "length ?raw mod 4 = 0")
      case True
      then have "?dat = stripPadding ?raw" by simp
      with ok have "\<forall>x \<in> set (stripPadding ?raw). x < 0x80" by simp
      moreover have "c \<in> set (stripPadding ?raw) \<or> c = 0x3D"
        using m by (rule stripPadding_mem)
      ultimately show ?thesis by auto
    next
      case False
      then have "?dat = ?raw" by simp
      with ok m show ?thesis by simp
    qed
  qed
qed

lemma utf8encode_ascii: "\<forall>c \<in> set s. c < 0x80 \<Longrightarrow> utf8encode s = map ucast s"
  by (induction s) simp_all


text \<open>
  Claim C8, as stated, fails: when the plaintext is the base64 text \<open>QQ==\<close>, \<open>decryptChunk\<close>
  returns the four bytes of that text and \<open>decryptChunkBinary\<close> the one byte it encodes;
  decoding the result of \<open>decryptChunkBinary\<close> once more is an error.
\<close>

theorem decrypt_text_is_not_decoded:
  "atob (str ''QQ=='') = Inr [0x41]
   \<and> decryptChunk transparent_nip44 (str ''QQ=='') [] (str ''pk'') = Inr [0x51, 0x51, 0x3D, 0x3D]
   \<and> decryptChunkBinary transparent_nip44 (str ''QQ=='') [] (str ''pk'') = Inr [0x41]
   \<and> base64ToUint8Array (map ucast [0x41 :: 8 word]) = Inl InvalidCharacterError"
  by (simp add: base64_defs)


text \<open>
  Claim C8, amended. When the decrypted plaintext is valid base64 text, \<open>decryptChunk\<close>
  returns that text byte for byte, and base64-decoding the text it returns gives exactly
  the bytes that \<open>decryptChunkBinary\<close> returns.
\<close>

theorem decrypt_entry_points_agree:
  "getConversationKey lib sk pk = Inr ck \<and> decrypt lib ciphertext ck = Inr plain
   \<and> atob plain = Inr bin
   \<longrightarrow> (\<exists>text. decryptChunk lib ciphertext sk pk = Inr text
          \<and> map ucast text = plain
          \<and> decryptChunkBinary lib ciphertext sk pk = base64ToUint8Array (map ucast text)
          \<and> decryptChunkBinary lib ciphertext sk pk = Inr (map ucast bin))"
proof
  assume a: "getConversationKey lib sk pk = Inr ck \<and> decrypt lib ciphertext ck = Inr plain
   \<and> atob plain = Inr bin"
  then have ascii: "\<forall>c \<in> set plain. c < 0x80"
    using atob_ascii by blast
  then have u: "utf8encode plain = map ucast plain"
    by (rule utf8encode_ascii)
  have again: "map ucast (map ucast plain :: Uint8Array) = plain"
    using ascii by (induction plain) (simp_all add: ascii_round)
  have 1: "decryptChunk lib ciphertext sk pk = Inr (map ucast plain)"
    using a u by (simp add: decryptChunk_def)
  have 2: "decryptChunkBinary lib ciphertext sk pk = base64ToUint8Array plain"
    using a by (simp add: decryptChunkBinary_def)
  have 3: "base64ToUint8Array plain = Inr (map ucast bin)"
    using a by (simp add: base64ToUint8Array_def)
  show "\<exists>text. decryptChunk lib ciphertext sk pk = Inr text
          \<and> map ucast text = plain
          \<and> decryptChunkBinary lib ciphertext sk pk = base64ToUint8Array (map ucast text)
          \<and> decryptChunkBinary lib ciphertext sk pk = Inr (map ucast bin)"
    using 1 2 3 again by (intro exI [of _ "map ucast plain"]) simp
qed

theorem decrypt_entry_points_agree_witness:
  "atob (str ''QQ=='') = Inr [0x41]
   \<and> decryptChunk transparent_nip44 (str ''QQ=='') [] (str ''pk'') = Inr [0x51, 0x51, 0x3D, 0x3D]
   \<and> base64ToUint8Array (map ucast [0x51, 0x51, 0x3D, 0x3D :: 8 word]) = Inr [0x41]
   \<and> decryptChunkBinary transparent_nip44 (str ''QQ=='') [] (str ''pk'') = Inr [0x41]"
  using decrypt_entry_points_agree
    [where lib = transparent_nip44 and sk = "[]" and pk = "str ''pk''" and ck = "()"
       and ciphertext = "str ''QQ==''" and plain = "str ''QQ==''" and bin = "[0x41]"]
  by (simp add: base64_defs)

end
